theory Spec2Isabelle
  imports Complex_Main "HOL-Library.Multiset"
begin

section \<open>Hybrid retrieval, rank fusion and reranking (services/query\_service.py)\<close>

text \<open>
  The theory embeds \<^verbatim>\<open>services/query_service.py\<close>: the tokenizer, the lazily built
  BM25 index, query rewriting, the two searches, Reciprocal Rank Fusion, reranking and
  the final selection.  Python floats are modelled as exact reals, Python strings as
  ASCII \<^typ>\<open>string\<close>s, the dictionary \<^verbatim>\<open>fused_results\<close> as an association list in
  insertion order (Python dictionaries keep it, and the stable sort makes it visible),
  and every exception as a value of type \<open>error\<close>.
\<close>

subsection \<open>Python helpers\<close>

datatype error =
    ZeroDivisionError
  | IndexError
  | AttributeError
  | ExternalError string

text \<open>\<^verbatim>\<open>xs[:k]\<close>: a negative bound counts from the end.\<close>

definition py_take :: "int \<Rightarrow> 'a list \<Rightarrow> 'a list" where
  "py_take k xs =
     (if k < 0 then take (nat (int (length xs) + k)) xs else take (nat k) xs)"

text \<open>
  \<^verbatim>\<open>sorted(xs, key=key, reverse=True)\<close>: descending by key, and stable (elements with
  equal keys keep their original order, also under \<^verbatim>\<open>reverse=True\<close>).
\<close>

definition sorted_reverse :: "('a \<Rightarrow> real) \<Rightarrow> 'a list \<Rightarrow> 'a list" where
  "sorted_reverse key xs = sort_key (\<lambda>x. - key x) xs"

text \<open>\<^verbatim>\<open>str(n)\<close> for integers, as the f-strings use it.\<close>

definition digit_char :: "nat \<Rightarrow> char" where
  "digit_char d = ''0123456789'' ! d"

fun str_nat :: "nat \<Rightarrow> string" where
  "str_nat n = (if n < 10 then [digit_char n] else str_nat (n div 10) @ [digit_char (n mod 10)])"

definition str_int :: "int \<Rightarrow> string" where
  "str_int i = (if i < 0 then CHR ''-'' # str_nat (nat (- i)) else str_nat (nat i))"

text \<open>\<^verbatim>\<open>s.strip()\<close>: leading and trailing white space removed (ASCII white space).\<close>

definition isspace :: "char \<Rightarrow> bool" where
  "isspace c \<longleftrightarrow>
     c \<in> set [CHR 0x09, CHR 0x0A, CHR 0x0B, CHR 0x0C, CHR 0x0D,
                CHR 0x1C, CHR 0x1D, CHR 0x1E, CHR 0x1F, CHR 0x20]"

definition strip :: "string \<Rightarrow> string" where
  "strip s = rev (dropWhile isspace (rev (dropWhile isspace s)))"

subsection \<open>Tokenizer\<close>

text \<open>
  \<^verbatim>\<open>re.findall(r'\b\w+\b', text.lower())\<close>: the maximal runs of word characters
  (letters, digits, underscore) of the lower-cased text.
\<close>

definition ascii_uppercase :: string where
  "ascii_uppercase = ''ABCDEFGHIJKLMNOPQRSTUVWXYZ''"

definition ascii_lowercase :: string where
  "ascii_lowercase = ''abcdefghijklmnopqrstuvwxyz''"

definition is_word_char :: "char \<Rightarrow> bool" where
  "is_word_char c \<longleftrightarrow> c \<in> set (ascii_lowercase @ ascii_uppercase @ ''0123456789_'')"

definition lower_char :: "char \<Rightarrow> char" where
  "lower_char c =
     (case map_of (zip ascii_uppercase ascii_lowercase) c of Some l \<Rightarrow> l | None \<Rightarrow> c)"

definition lower :: "string \<Rightarrow> string" where
  "lower s = map lower_char s"

fun findall_words :: "string \<Rightarrow> string \<Rightarrow> string list" where
  "findall_words cur [] = (if cur = [] then [] else [cur])"
| "findall_words cur (c # cs) =
     (if is_word_char c then findall_words (cur @ [c]) cs
      else if cur = [] then findall_words [] cs
      else cur # findall_words [] cs)"

definition simple_tokenizer :: "string \<Rightarrow> string list" where
  "simple_tokenizer text = findall_words [] (lower text)"

subsection \<open>The lexical index\<close>

text \<open>
  Modelled from the spec: the class \<^verbatim>\<open>BM25Okapi\<close> of the library \<^verbatim>\<open>rank_bm25\<close> is
  imported, not part of the sources.  Section 4.2: the index stores each chunk's token
  sequence and length and precomputes the document frequency per term and the average
  document length; a query term present in a chunk contributes
  \<open>IDF * (f * (k1 + 1)) / (f + k1 * (1 - b + b * |chunk| / avgLen))\<close> with
  \<open>k1 = 1.5\<close>, \<open>b = 0.75\<close> and \<open>IDF = ln (1 + (N - df + 0.5) / (df + 0.5))\<close>; absent
  terms contribute zero.  The average is a Python division, which raises on an empty
  corpus.
\<close>

record bm25 =
  doc_tokens :: "string list list"
  avgdl :: real

definition BM25Okapi :: "string list list \<Rightarrow> error + bm25" where
  "BM25Okapi tokenized_corpus =
     (if length tokenized_corpus = 0 then Inl ZeroDivisionError
      else Inr \<lparr>doc_tokens = tokenized_corpus,
                avgdl = real (sum_list (map length tokenized_corpus))
                          / real (length tokenized_corpus)\<rparr>)"

definition doc_freq :: "bm25 \<Rightarrow> string \<Rightarrow> nat" where
  "doc_freq idx t = length (filter (\<lambda>d. t \<in> set d) (doc_tokens idx))"

definition idf :: "bm25 \<Rightarrow> string \<Rightarrow> real" where
  "idf idx t =
     ln (1 + (real (length (doc_tokens idx)) - real (doc_freq idx t) + 0.5)
              / (real (doc_freq idx t) + 0.5))"

definition term_score :: "bm25 \<Rightarrow> string \<Rightarrow> string list \<Rightarrow> real" where
  "term_score idx t d =
     (if t \<in> set d
      then idf idx t * (real (count_list d t) * (1.5 + 1))
             / (real (count_list d t)
                + 1.5 * (1 - 0.75 + 0.75 * real (length d) / avgdl idx))
      else 0)"

definition get_scores :: "bm25 \<Rightarrow> string list \<Rightarrow> real list" where
  "get_scores idx query = map (\<lambda>d. sum_list (map (\<lambda>t. term_score idx t d) query)) (doc_tokens idx)"

subsection \<open>Hits, process state and external services\<close>

text \<open>
  A hit of either search: \<^verbatim>\<open>{'id': ..., 'score': ..., 'metadata': {'full_content': ...}}\<close>.
  Of the metadata only \<^verbatim>\<open>full_content\<close> is ever read.
\<close>

record hit =
  hit_id :: string
  hit_score :: real
  full_content :: string

text \<open>An entry of \<^verbatim>\<open>fused_results\<close>: \<^verbatim>\<open>{'score': ..., 'metadata': ...}\<close>.\<close>

record fused =
  score :: real
  metadata :: string

text \<open>
  The external collaborators.  Every call is recorded in the process state, and a
  collaborator's answer may depend on how many calls were made before it (its first
  argument), so that a service may fail once and succeed later.  An exception raised by
  a collaborator is \<open>Inl\<close>.  \<open>hash\<close> is Python's built-in string hash, fixed for the
  life of a process.
\<close>

datatype service = ReadFile | PineconeIndex | Generate | Encode | Query | Predict

record env =
  read_golden_dataset :: "nat \<Rightarrow> error + string list"
  pc_Index :: "nat \<Rightarrow> error + unit"
  generate_content :: "nat \<Rightarrow> string \<Rightarrow> error + string"
  encode :: "nat \<Rightarrow> string \<Rightarrow> error + real list"
  pinecone_query :: "nat \<Rightarrow> real list \<Rightarrow> int \<Rightarrow> error + hit list"
  predict :: "nat \<Rightarrow> (string \<times> string) list \<Rightarrow> error + real list"
  hash :: "string \<Rightarrow> int"

text \<open>
  The module's globals \<^verbatim>\<open>bm25_index\<close> and \<^verbatim>\<open>corpus\<close>, and the history of external
  calls: the service called and the exception it raised, if any.
\<close>

record state =
  bm25_index :: "bm25 option"
  corpus :: "string list"
  calls :: "(service \<times> error option) list"

definition record_call :: "service \<Rightarrow> error option \<Rightarrow> state \<Rightarrow> state" where
  "record_call svc raised s = s\<lparr>calls := calls s @ [(svc, raised)]\<rparr>"

text \<open>
  The state of a fresh process: \<^verbatim>\<open>bm25_index = None\<close>, \<^verbatim>\<open>corpus = []\<close>.
\<close>

definition initial_state :: state where
  "initial_state = \<lparr>bm25_index = None, corpus = [], calls = []\<rparr>"

subsection \<open>Building the index\<close>

text \<open>
  \<^verbatim>\<open>build_bm25_index_from_file\<close>.  Reading and decoding the file and extracting the
  field \<^verbatim>\<open>ground_truth_context\<close> of every item is the external \<open>read_golden_dataset\<close>.
  The global \<^verbatim>\<open>corpus\<close> is assigned before the index is constructed, so it stays
  assigned when the constructor raises.
\<close>

definition build_bm25_index_from_file :: "env \<Rightarrow> state \<Rightarrow> (error + unit) \<times> state" where
  "build_bm25_index_from_file e s =
     (case read_golden_dataset e (length (calls s)) of
        Inl err \<Rightarrow> (Inl err, record_call ReadFile (Some err) s)
      | Inr data \<Rightarrow>
          (let s1 = (record_call ReadFile None s)\<lparr>corpus := data\<rparr>;
               tokenized_corpus = map simple_tokenizer data
           in case BM25Okapi tokenized_corpus of
                Inl err \<Rightarrow> (Inl err, s1)
              | Inr idx \<Rightarrow> (Inr (), s1\<lparr>bm25_index := Some idx\<rparr>)))"

subsection \<open>Query rewriting\<close>

definition REWRITE_PROMPT_TEMPLATE :: "string \<Rightarrow> string" where
  "REWRITE_PROMPT_TEMPLATE question =
''
You are an expert at rewriting user questions to be more effective for a vector database search.
Your task is to take the user's question and expand it into a more descriptive, detailed query that contains more contextual keywords.
Do not answer the question. Only provide the rewritten query.

Original Question: '' @ question @ ''

Rewritten Query:
''"

text \<open>
  \<^verbatim>\<open>rewrite_query\<close>: the \<^verbatim>\<open>try\<close> covers the call and the reading of \<^verbatim>\<open>response.text\<close>
  (both are the external \<open>generate_content\<close>); \<^verbatim>\<open>except Exception\<close> returns the question.
\<close>

definition rewrite_query :: "env \<Rightarrow> state \<Rightarrow> string \<Rightarrow> string \<times> state" where
  "rewrite_query e s question =
     (let prompt = REWRITE_PROMPT_TEMPLATE question
      in case generate_content e (length (calls s)) prompt of
           Inr text \<Rightarrow> (strip text, record_call Generate None s)
         | Inl err \<Rightarrow> (question, record_call Generate (Some err) s))"

subsection \<open>Keyword search (lines 99 to 104)\<close>

text \<open>
  The list comprehension building \<^verbatim>\<open>bm25_hits\<close>; \<^verbatim>\<open>corpus[i]\<close> raises when \<open>i\<close> is out
  of range.
\<close>

fun bm25_hits_of :: "string list \<Rightarrow> real list \<Rightarrow> nat list \<Rightarrow> error + hit list" where
  "bm25_hits_of corp bm25_scores [] = Inr []"
| "bm25_hits_of corp bm25_scores (i # rest) =
     (if i < length corp
      then (case bm25_hits_of corp bm25_scores rest of
              Inl err \<Rightarrow> Inl err
            | Inr hs \<Rightarrow>
                Inr (\<lparr>hit_id = ''bm25_'' @ str_nat i, hit_score = bm25_scores ! i,
                      full_content = corp ! i\<rparr> # hs))
      else Inl IndexError)"

definition bm25_results_of :: "real list \<Rightarrow> int \<Rightarrow> nat list" where
  "bm25_results_of bm25_scores top_k =
     py_take top_k (sorted_reverse (\<lambda>i. bm25_scores ! i) [0..<length bm25_scores])"

definition keyword_search :: "state \<Rightarrow> string \<Rightarrow> int \<Rightarrow> error + hit list" where
  "keyword_search s rewritten_question top_k =
     (case bm25_index s of
        None \<Rightarrow> Inl AttributeError
      | Some idx \<Rightarrow>
          (let tokenized_query = simple_tokenizer rewritten_question;
               bm25_scores = get_scores idx tokenized_query;
               bm25_results = bm25_results_of bm25_scores top_k
           in bm25_hits_of (corpus s) bm25_scores bm25_results))"

subsection \<open>Semantic search (lines 106 to 110)\<close>

definition semantic_search :: "env \<Rightarrow> state \<Rightarrow> string \<Rightarrow> int \<Rightarrow> (error + hit list) \<times> state" where
  "semantic_search e s rewritten_question top_k =
     (case encode e (length (calls s)) rewritten_question of
        Inl err \<Rightarrow> (Inl err, record_call Encode (Some err) s)
      | Inr query_embedding \<Rightarrow>
          (let s1 = record_call Encode None s
           in case pinecone_query e (length (calls s1)) query_embedding top_k of
                Inl err \<Rightarrow> (Inl err, record_call Query (Some err) s1)
              | Inr pinecone_hits \<Rightarrow> (Inr pinecone_hits, record_call Query None s1)))"

subsection \<open>Reciprocal Rank Fusion (lines 112 to 130)\<close>

definition rrf_k :: nat where
  "rrf_k = 60"

text \<open>\<^verbatim>\<open>fused_results[doc_id]['score'] += x\<close> on a key that is present.\<close>

fun add_score :: "string \<Rightarrow> real \<Rightarrow> (string \<times> fused) list \<Rightarrow> (string \<times> fused) list" where
  "add_score doc_id x [] = []"
| "add_score doc_id x ((k, f) # rest) =
     (if k = doc_id then (k, f\<lparr>score := score f + x\<rparr>) # rest
      else (k, f) # add_score doc_id x rest)"

text \<open>The body shared by the two loops, for one hit at one rank.\<close>

definition fuse_hit :: "string \<Rightarrow> string \<Rightarrow> nat \<Rightarrow> (string \<times> fused) list \<Rightarrow> (string \<times> fused) list" where
  "fuse_hit doc_id md rank fused_results =
     (let fr = (if doc_id \<notin> set (map fst fused_results)
                then fused_results @ [(doc_id, \<lparr>score = 0, metadata = md\<rparr>)]
                else fused_results)
      in add_score doc_id (1 / real (rrf_k + rank + 1)) fr)"

text \<open>\<^verbatim>\<open>for rank, hit in enumerate(hits)\<close>, with the loop's way of naming a hit.\<close>

fun fuse_loop :: "(hit \<Rightarrow> string) \<Rightarrow> nat \<Rightarrow> hit list \<Rightarrow> (string \<times> fused) list \<Rightarrow> (string \<times> fused) list" where
  "fuse_loop doc_id_of rank [] fused_results = fused_results"
| "fuse_loop doc_id_of rank (h # hs) fused_results =
     fuse_loop doc_id_of (rank + 1) hs (fuse_hit (doc_id_of h) (full_content h) rank fused_results)"

text \<open>The dense loop names a hit by its vector-store id, the lexical loop by a hash of its content.\<close>

definition pinecone_doc_id :: "hit \<Rightarrow> string" where
  "pinecone_doc_id h = hit_id h"

definition bm25_doc_id :: "(string \<Rightarrow> int) \<Rightarrow> hit \<Rightarrow> string" where
  "bm25_doc_id hsh h = ''content_'' @ str_int (hsh (full_content h))"

definition fused_results_of :: "(string \<Rightarrow> int) \<Rightarrow> hit list \<Rightarrow> hit list \<Rightarrow> (string \<times> fused) list" where
  "fused_results_of hsh pinecone_hits bm25_hits =
     fuse_loop (bm25_doc_id hsh) 0 bm25_hits (fuse_loop pinecone_doc_id 0 pinecone_hits [])"

definition sorted_fused_results :: "(string \<Rightarrow> int) \<Rightarrow> hit list \<Rightarrow> hit list \<Rightarrow> fused list" where
  "sorted_fused_results hsh pinecone_hits bm25_hits =
     sorted_reverse score (map snd (fused_results_of hsh pinecone_hits bm25_hits))"

subsection \<open>Reranking and final selection (lines 132 to 147)\<close>

definition top_fused_hits_of :: "int \<Rightarrow> fused list \<Rightarrow> string list" where
  "top_fused_hits_of top_k sorted_fused =
     (let rerank_pool_size = top_k + 5 in map metadata (py_take rerank_pool_size sorted_fused))"

definition reranked_results :: "string list \<Rightarrow> real list \<Rightarrow> (string \<times> real) list" where
  "reranked_results top_fused_hits scores = sorted_reverse snd (zip top_fused_hits scores)"

definition final_context :: "(string \<times> real) list \<Rightarrow> int \<Rightarrow> string list" where
  "final_context reranked final_k = map fst (py_take final_k reranked)"

definition rerank_and_select ::
  "env \<Rightarrow> state \<Rightarrow> string \<Rightarrow> string list \<Rightarrow> int \<Rightarrow> (error + string list) \<times> state" where
  "rerank_and_select e s question top_fused_hits final_k =
     (if top_fused_hits = [] then (Inr [], s)
      else
        (let rerank_pairs = map (\<lambda>content. (question, content)) top_fused_hits
         in case predict e (length (calls s)) rerank_pairs of
              Inl err \<Rightarrow> (Inl err, record_call Predict (Some err) s)
            | Inr scores \<Rightarrow>
                (Inr (final_context (reranked_results top_fused_hits scores) final_k),
                 record_call Predict None s)))"

subsection \<open>The pipeline\<close>

text \<open>Lines 99 to 147: everything after the rewriting, given the rewritten question.\<close>

definition search_fuse_rerank ::
  "env \<Rightarrow> state \<Rightarrow> string \<Rightarrow> string \<Rightarrow> int \<Rightarrow> int \<Rightarrow> (error + string list) \<times> state" where
  "search_fuse_rerank e s question rewritten_question top_k final_k =
     (case keyword_search s rewritten_question top_k of
        Inl err \<Rightarrow> (Inl err, s)
      | Inr bm25_hits \<Rightarrow>
          (case semantic_search e s rewritten_question top_k of
             (Inl err, s1) \<Rightarrow> (Inl err, s1)
           | (Inr pinecone_hits, s1) \<Rightarrow>
               rerank_and_select e s1 question
                 (top_fused_hits_of top_k (sorted_fused_results (hash e) pinecone_hits bm25_hits))
                 final_k))"

text \<open>Lines 93 and 94: the index is built on the first call that finds none.\<close>

definition ensure_bm25_index :: "env \<Rightarrow> state \<Rightarrow> (error + unit) \<times> state" where
  "ensure_bm25_index e s =
     (if bm25_index s = None then build_bm25_index_from_file e s else (Inr (), s))"

definition get_pinecone_index :: "env \<Rightarrow> state \<Rightarrow> (error + unit) \<times> state" where
  "get_pinecone_index e s =
     (case pc_Index e (length (calls s)) of
        Inl err \<Rightarrow> (Inl err, record_call PineconeIndex (Some err) s)
      | Inr u \<Rightarrow> (Inr (), record_call PineconeIndex None s))"

text \<open>Lines 96 to 147: the body once the index exists.\<close>

definition retrieve_with_index ::
  "env \<Rightarrow> state \<Rightarrow> string \<Rightarrow> int \<Rightarrow> int \<Rightarrow> (error + string list) \<times> state" where
  "retrieve_with_index e s question top_k final_k =
     (case get_pinecone_index e s of
        (Inl err, s1) \<Rightarrow> (Inl err, s1)
      | (Inr u, s1) \<Rightarrow>
          (case rewrite_query e s1 question of
             (rewritten_question, s2) \<Rightarrow>
               search_fuse_rerank e s2 question rewritten_question top_k final_k))"

definition retrieve_and_rerank ::
  "env \<Rightarrow> state \<Rightarrow> string \<Rightarrow> int \<Rightarrow> int \<Rightarrow> (error + string list) \<times> state" where
  "retrieve_and_rerank e s question top_k final_k =
     (case ensure_bm25_index e s of
        (Inl err, s1) \<Rightarrow> (Inl err, s1)
      | (Inr u, s1) \<Rightarrow> retrieve_with_index e s1 question top_k final_k)"

subsection \<open>Notions used to state the properties\<close>

text \<open>
  The reciprocal-rank sum as the specification words it: a hit at 0-based rank \<open>r\<close>
  contributes \<open>1 / (k + r + 1)\<close> with \<open>k = 60\<close> to the score of the identity it is
  reported under; \<open>rrf_sum rank ids d\<close> adds the contributions to \<open>d\<close> of a list of
  identities whose first element has rank \<open>rank\<close>.
\<close>

fun rrf_sum :: "nat \<Rightarrow> string list \<Rightarrow> string \<Rightarrow> real" where
  "rrf_sum rank [] d = 0"
| "rrf_sum rank (k # ks) d =
     (if k = d then 1 / real (60 + rank + 1) else 0) + rrf_sum (rank + 1) ks d"

text \<open>The score stored under a key of \<^verbatim>\<open>fused_results\<close> (0 for an absent key).\<close>

definition score_of :: "(string \<times> fused) list \<Rightarrow> string \<Rightarrow> real" where
  "score_of fr d = (case map_of fr d of None \<Rightarrow> 0 | Some f \<Rightarrow> score f)"

text \<open>
  The index agrees with the corpus: it was built from the token sequences of the
  passages that the global \<^verbatim>\<open>corpus\<close> holds.  It is true of a fresh process and kept by
  every call (lemmas \<open>index_matches_initial\<close> and \<open>index_matches_retrieve\<close>).
\<close>

definition index_matches_corpus :: "state \<Rightarrow> bool" where
  "index_matches_corpus s =
     (case bm25_index s of
        None \<Rightarrow> True
      | Some idx \<Rightarrow> doc_tokens idx = map simple_tokenizer (corpus s))"

text \<open>The lexical hit for the passage at corpus position \<open>i\<close> with the score 0.\<close>

definition zero_hit :: "string list \<Rightarrow> nat \<Rightarrow> hit" where
  "zero_hit corp i = \<lparr>hit_id = ''bm25_'' @ str_nat i, hit_score = 0, full_content = corp ! i\<rparr>"

text \<open>The external calls made between two states of one process.\<close>

definition new_calls :: "state \<Rightarrow> state \<Rightarrow> (service \<times> error option) list" where
  "new_calls s s' = drop (length (calls s)) (calls s')"

text \<open>
  Identical responses: what a collaborator answers does not depend on when it is asked.
  The corpus file counts as a collaborator, so this is also the unchanged corpus.
\<close>

definition identical_responses :: "env \<Rightarrow> bool" where
  "identical_responses e \<longleftrightarrow>
     (\<forall>n m. read_golden_dataset e n = read_golden_dataset e m)
     \<and> (\<forall>n m. pc_Index e n = pc_Index e m)
     \<and> (\<forall>n m prompt. generate_content e n prompt = generate_content e m prompt)
     \<and> (\<forall>n m text. encode e n text = encode e m text)
     \<and> (\<forall>n m v k. pinecone_query e n v k = pinecone_query e m v k)
     \<and> (\<forall>n m pairs. predict e n pairs = predict e m pairs)"

text \<open>Two states with the same module globals (their call histories may differ).\<close>

definition same_globals :: "state \<Rightarrow> state \<Rightarrow> bool" where
  "same_globals s t \<longleftrightarrow> bm25_index s = bm25_index t \<and> corpus s = corpus t"

section \<open>Concrete inputs\<close>

text \<open>
  One passage that both searches return: the corpus holds it, and the vector store
  returns it under the id that \<^verbatim>\<open>services/embedding_service.py\<close> gave it
  (\<^verbatim>\<open>f"dense_{i+idx}"\<close>).
\<close>

definition dense_solar :: hit where
  "dense_solar = \<lparr>hit_id = ''dense_0'', hit_score = 1, full_content = ''solar power''\<rparr>"

definition bm25_solar :: hit where
  "bm25_solar = \<lparr>hit_id = ''bm25_0'', hit_score = 0, full_content = ''solar power''\<rparr>"

definition env_same_chunk :: "(string \<Rightarrow> int) \<Rightarrow> env" where
  "env_same_chunk hsh =
     \<lparr>read_golden_dataset = (\<lambda>n. Inr [''solar power'']),
      pc_Index = (\<lambda>n. Inr ()),
      generate_content = (\<lambda>n prompt. Inr ''wind''),
      encode = (\<lambda>n text. Inr [1]),
      pinecone_query = (\<lambda>n v k. Inr [dense_solar]),
      predict = (\<lambda>n pairs. Inr (map (\<lambda>p. 1) pairs)),
      hash = hsh\<rparr>"

text \<open>
  The scenario of the specification: chunks A, B, C, D with the contents \<^verbatim>\<open>a\<close>, \<^verbatim>\<open>bb\<close>,
  \<^verbatim>\<open>ccc\<close>, \<^verbatim>\<open>dddd\<close>, the lexical search returning \<open>[A, B, C]\<close> and the dense search
  returning \<open>[B, D, A]\<close> under the ids that \<^verbatim>\<open>services/embedding_service.py\<close> gives
  the four sections (\<^verbatim>\<open>dense_0\<close> to \<^verbatim>\<open>dense_3\<close>).  \<open>hash_len\<close> is a stand-in for
  Python's string hash in the concrete runs.
\<close>

definition hash_len :: "string \<Rightarrow> int" where
  "hash_len c = int (length c)"

definition lexical_ABC :: "hit list" where
  "lexical_ABC =
     [\<lparr>hit_id = ''bm25_0'', hit_score = 3, full_content = ''a''\<rparr>,
      \<lparr>hit_id = ''bm25_1'', hit_score = 2, full_content = ''bb''\<rparr>,
      \<lparr>hit_id = ''bm25_2'', hit_score = 1, full_content = ''ccc''\<rparr>]"

definition dense_BDA :: "hit list" where
  "dense_BDA =
     [\<lparr>hit_id = ''dense_1'', hit_score = 0.9, full_content = ''bb''\<rparr>,
      \<lparr>hit_id = ''dense_3'', hit_score = 0.8, full_content = ''dddd''\<rparr>,
      \<lparr>hit_id = ''dense_0'', hit_score = 0.7, full_content = ''a''\<rparr>]"

text \<open>
  The process after the index was built from that corpus, and after the handle of the
  vector index was fetched.
\<close>

definition state_solar :: state where
  "state_solar = snd (build_bm25_index_from_file (env_same_chunk hash_len) initial_state)"

definition state_indexed :: state where
  "state_indexed = snd (get_pinecone_index (env_same_chunk hash_len) state_solar)"

text \<open>The same collaborators, except that the rewriting call raises.\<close>

definition env_rewrite_raises :: env where
  "env_rewrite_raises =
     (env_same_chunk hash_len)\<lparr>generate_content := (\<lambda>n prompt. Inl (ExternalError ''503''))\<rparr>"

text \<open>The same, except that the rewriting call answers with an empty text.\<close>

definition env_rewrite_empty :: env where
  "env_rewrite_empty = (env_same_chunk hash_len)\<lparr>generate_content := (\<lambda>n prompt. Inr [])\<rparr>"

text \<open>
  The same, except that the embedding call raises when it is the fourth external call
  of the process (which it is on a first question) and succeeds at any other time.
\<close>

definition env_encode_fails_once :: env where
  "env_encode_fails_once =
     (env_same_chunk hash_len)
       \<lparr>encode := (\<lambda>n text. if n = 3 then Inl (ExternalError ''timeout'') else Inr [1])\<rparr>"

text \<open>The same, except that the corpus file holds no item.\<close>

definition env_empty_corpus :: env where
  "env_empty_corpus = (env_same_chunk hash_len)\<lparr>read_golden_dataset := (\<lambda>n. Inr [])\<rparr>"

section \<open>Properties\<close>

subsection \<open>Evaluation and helper lemmas\<close>

lemmas char_defs = simple_tokenizer_def lower_def lower_char_def is_word_char_def
  ascii_uppercase_def ascii_lowercase_def isspace_def strip_def digit_char_def str_int_def

lemmas pipeline_defs = retrieve_and_rerank_def retrieve_with_index_def ensure_bm25_index_def
  build_bm25_index_from_file_def get_pinecone_index_def rewrite_query_def
  search_fuse_rerank_def keyword_search_def semantic_search_def rerank_and_select_def
  record_call_def bm25_results_of_def top_fused_hits_of_def reranked_results_def
  final_context_def sorted_fused_results_def fused_results_of_def fuse_hit_def
  pinecone_doc_id_def bm25_doc_id_def py_take_def sorted_reverse_def BM25Okapi_def
  get_scores_def term_score_def rrf_k_def

lemma tokens_wind: "simple_tokenizer ''wind'' = [''wind'']"
  by (simp add: char_defs)

lemma tokens_solar_power: "simple_tokenizer ''solar power'' = [''solar'', ''power'']"
  by (simp add: char_defs)

lemma py_take_nonneg: "0 \<le> k \<Longrightarrow> py_take k xs = take (nat k) xs"
  by (simp add: py_take_def)

lemma sorted_sorted_reverse: "sorted_wrt (\<lambda>a b. key a \<ge> key b) (sorted_reverse key xs)"
proof -
  have "sorted (map (\<lambda>x. - key x) (sort_key (\<lambda>x. - key x) xs))"
    by (rule sorted_sort_key)
  then show ?thesis
    by (simp add: sorted_reverse_def sorted_map sorted_wrt_map)
qed

lemma mset_sorted_reverse: "mset (sorted_reverse key xs) = mset xs"
  by (simp add: sorted_reverse_def)

lemma stable_sorted_reverse:
  "filter (\<lambda>x. key x = v) (sorted_reverse key xs) = filter (\<lambda>x. key x = v) xs"
  using sort_key_stable [of "\<lambda>x. - key x" "- v" xs] by (simp add: sorted_reverse_def)

subsection \<open>The dictionary of fused results\<close>

lemma keys_add_score: "map fst (add_score d x fr) = map fst fr"
  by (induction fr) auto

lemma map_of_add_score:
  "map_of (add_score d x fr) d' =
     (if d' = d then map_option (\<lambda>f. f\<lparr>score := score f + x\<rparr>) (map_of fr d) else map_of fr d')"
  by (induction fr) auto

lemma keys_fuse_hit:
  "map fst (fuse_hit d md r fr) = (if d \<in> fst ` set fr then map fst fr else map fst fr @ [d])"
  by (simp add: fuse_hit_def keys_add_score)

lemma keyset_fuse_hit: "fst ` set (fuse_hit d md r fr) = insert d (fst ` set fr)"
  using keys_fuse_hit [of d md r fr, THEN arg_cong, of set] by (auto split: if_splits)

lemma distinct_fuse_hit: "distinct (map fst fr) \<Longrightarrow> distinct (map fst (fuse_hit d md r fr))"
  by (simp add: keys_fuse_hit)

lemma score_of_fuse_hit:
  "score_of (fuse_hit d md r fr) d' = score_of fr d' + (if d' = d then 1 / real (60 + r + 1) else 0)"
proof (cases "d \<in> fst ` set fr")
  case True
  then obtain f where "map_of fr d = Some f"
    by (cases "map_of fr d") (auto simp: map_of_eq_None_iff)
  with True show ?thesis
    by (simp add: score_of_def fuse_hit_def map_of_add_score rrf_k_def)
next
  case False
  then have "map_of fr d = None"
    by (simp add: map_of_eq_None_iff)
  with False show ?thesis
    by (auto simp: score_of_def fuse_hit_def map_of_add_score rrf_k_def map_add_def
        split: option.splits)
qed

lemma keys_fuse_loop:
  "fst ` set (fuse_loop key r hs fr) = fst ` set fr \<union> key ` set hs"
  by (induction hs arbitrary: r fr) (auto simp: keyset_fuse_hit)

lemma distinct_fuse_loop:
  "distinct (map fst fr) \<Longrightarrow> distinct (map fst (fuse_loop key r hs fr))"
  by (induction hs arbitrary: r fr) (auto simp: distinct_fuse_hit)

lemma score_of_fuse_loop:
  "score_of (fuse_loop key r hs fr) d = score_of fr d + rrf_sum r (map key hs) d"
  by (induction hs arbitrary: r fr) (auto simp: score_of_fuse_hit)

lemma rrf_sum_absent: "d \<notin> set ks \<Longrightarrow> rrf_sum r ks d = 0"
  by (induction ks arbitrary: r) auto

text \<open>The keys of the dictionary are pairwise distinct: one entry per key.\<close>

lemma distinct_fused_results: "distinct (map fst (fused_results_of hsh P B))"
  by (simp add: fused_results_of_def distinct_fuse_loop)

lemma keys_fused_results:
  "fst ` set (fused_results_of hsh P B) = pinecone_doc_id ` set P \<union> bm25_doc_id hsh ` set B"
  by (simp add: fused_results_of_def keys_fuse_loop)

lemma score_of_fused_results:
  "score_of (fused_results_of hsh P B) d =
     rrf_sum 0 (map pinecone_doc_id P) d + rrf_sum 0 (map (bm25_doc_id hsh) B) d"
  by (simp add: fused_results_of_def score_of_fuse_loop) (simp add: score_of_def)

subsection \<open>Rank fusion\<close>

text \<open>
  C1 (the code departs from it).  The claim: a chunk returned by both searches becomes
  one fused candidate whose score is the sum of both contributions.  The code: the
  dense hit is filed under its vector-store id and the lexical hit under
  \<^verbatim>\<open>content_<hash>\<close>, so for the passage \<^verbatim>\<open>solar power\<close> returned first by both
  searches the dictionary holds two candidates with the score \<open>1/61\<close> each, whatever
  the hash function, and none with \<open>2/61\<close>.
\<close>

theorem same_chunk_two_candidates:
  "fused_results_of hsh [dense_solar] [bm25_solar] =
     [(''dense_0'', \<lparr>score = 1 / 61, metadata = ''solar power''\<rparr>),
      (''content_'' @ str_int (hsh ''solar power''), \<lparr>score = 1 / 61, metadata = ''solar power''\<rparr>)]"
  by (simp add: fused_results_of_def fuse_hit_def pinecone_doc_id_def bm25_doc_id_def
      dense_solar_def bm25_solar_def rrf_k_def)

text \<open>
  Per dictionary key the arithmetic is that of Reciprocal Rank Fusion: a candidate's
  score is the sum of the contributions \<open>1 / (60 + r + 1)\<close> of the hits filed under
  its key, over both lists; every key of either list has a candidate; and the output
  holds exactly the dictionary's candidates, sorted by fused score, highest first.
\<close>

lemma fused_scores_per_key:
  "(\<forall>(d, f) \<in> set (fused_results_of hsh P B).
       score f = rrf_sum 0 (map pinecone_doc_id P) d + rrf_sum 0 (map (bm25_doc_id hsh) B) d)
   \<and> (\<forall>(d, f) \<in> set (fused_results_of hsh P B).
       d \<notin> bm25_doc_id hsh ` set B \<longrightarrow> score f = rrf_sum 0 (map pinecone_doc_id P) d)
   \<and> (\<forall>(d, f) \<in> set (fused_results_of hsh P B).
       d \<notin> pinecone_doc_id ` set P \<longrightarrow> score f = rrf_sum 0 (map (bm25_doc_id hsh) B) d)
   \<and> fst ` set (fused_results_of hsh P B) = pinecone_doc_id ` set P \<union> bm25_doc_id hsh ` set B
   \<and> mset (sorted_fused_results hsh P B) = mset (map snd (fused_results_of hsh P B))
   \<and> sorted_wrt (\<lambda>a b. score a \<ge> score b) (sorted_fused_results hsh P B)"
proof -
  have sum: "score f = rrf_sum 0 (map pinecone_doc_id P) d + rrf_sum 0 (map (bm25_doc_id hsh) B) d"
    if "(d, f) \<in> set (fused_results_of hsh P B)" for d f
  proof -
    from that have "map_of (fused_results_of hsh P B) d = Some f"
      using distinct_fused_results by simp
    then have "score_of (fused_results_of hsh P B) d = score f"
      by (simp add: score_of_def)
    then show ?thesis
      by (simp add: score_of_fused_results)
  qed
  have dense_only: "score f = rrf_sum 0 (map pinecone_doc_id P) d"
    if "(d, f) \<in> set (fused_results_of hsh P B)" "d \<notin> bm25_doc_id hsh ` set B" for d f
    using sum [OF that(1)] that(2) by (simp add: rrf_sum_absent)
  have lexical_only: "score f = rrf_sum 0 (map (bm25_doc_id hsh) B) d"
    if "(d, f) \<in> set (fused_results_of hsh P B)" "d \<notin> pinecone_doc_id ` set P" for d f
    using sum [OF that(1)] that(2) by (simp add: rrf_sum_absent)
  have keys: "fst ` set (fused_results_of hsh P B) = pinecone_doc_id ` set P \<union> bm25_doc_id hsh ` set B"
    by (rule keys_fused_results)
  have perm: "mset (sorted_fused_results hsh P B) = mset (map snd (fused_results_of hsh P B))"
    by (simp add: sorted_fused_results_def mset_sorted_reverse)
  have srt: "sorted_wrt (\<lambda>a b. score a \<ge> score b) (sorted_fused_results hsh P B)"
    by (simp add: sorted_fused_results_def sorted_sorted_reverse)
  from sum dense_only lexical_only keys perm srt show ?thesis
    by blast
qed

text \<open>
  When no key of the dense list is a key of the lexical list, fusing the two lists is
  fusing each list on its own: nothing accumulates across the lists.
\<close>

lemma add_score_append_absent:
  "d \<notin> fst ` set fr \<Longrightarrow> add_score d x (fr @ gr) = fr @ add_score d x gr"
  by (induction fr) auto

lemma fuse_hit_append_absent:
  "d \<notin> fst ` set fr \<Longrightarrow> fuse_hit d md r (fr @ gr) = fr @ fuse_hit d md r gr"
  by (auto simp: fuse_hit_def add_score_append_absent)

lemma fuse_loop_append_absent:
  "key ` set hs \<inter> fst ` set fr = {} \<Longrightarrow>
     fuse_loop key r hs (fr @ gr) = fr @ fuse_loop key r hs gr"
  by (induction hs arbitrary: r gr) (auto simp: fuse_hit_append_absent)

lemma fused_results_separate:
  assumes "pinecone_doc_id ` set P \<inter> bm25_doc_id hsh ` set B = {}"
  shows "fused_results_of hsh P B = fused_results_of hsh P [] @ fused_results_of hsh [] B"
proof -
  have "fst ` set (fuse_loop pinecone_doc_id 0 P []) = pinecone_doc_id ` set P"
    by (simp add: keys_fuse_loop)
  with assms have "bm25_doc_id hsh ` set B \<inter> fst ` set (fuse_loop pinecone_doc_id 0 P []) = {}"
    by auto
  from fuse_loop_append_absent [OF this, of 0 "[]"] show ?thesis
    by (simp add: fused_results_of_def)
qed

lemma scenario_keys_disjoint:
  "pinecone_doc_id ` set dense_BDA \<inter> bm25_doc_id hsh ` set lexical_ABC = {}"
  by (simp add: dense_BDA_def lexical_ABC_def pinecone_doc_id_def bm25_doc_id_def)

lemma dense_BDA_alone:
  "fused_results_of hsh dense_BDA [] =
     [(''dense_1'', \<lparr>score = 1 / 61, metadata = ''bb''\<rparr>),
      (''dense_3'', \<lparr>score = 1 / 62, metadata = ''dddd''\<rparr>),
      (''dense_0'', \<lparr>score = 1 / 63, metadata = ''a''\<rparr>)]"
  by (simp add: fused_results_of_def fuse_hit_def pinecone_doc_id_def dense_BDA_def rrf_k_def)

text \<open>
  With a hash that gives the three lexical hits three different keys, the scenario ends
  in six candidates, two for B and two for A.
\<close>

lemma lexical_ABC_alone:
  assumes "distinct (map (bm25_doc_id hsh) lexical_ABC)"
  shows "fused_results_of hsh [] lexical_ABC =
     [(bm25_doc_id hsh (lexical_ABC ! 0), \<lparr>score = 1 / 61, metadata = ''a''\<rparr>),
      (bm25_doc_id hsh (lexical_ABC ! 1), \<lparr>score = 1 / 62, metadata = ''bb''\<rparr>),
      (bm25_doc_id hsh (lexical_ABC ! 2), \<lparr>score = 1 / 63, metadata = ''ccc''\<rparr>)]"
  using assms
  by (auto simp: fused_results_of_def fuse_hit_def lexical_ABC_def rrf_k_def)

lemma scenario_six_candidates:
  assumes "distinct (map (bm25_doc_id hsh) lexical_ABC)"
  shows "sorted_fused_results hsh dense_BDA lexical_ABC =
     [\<lparr>score = 1 / 61, metadata = ''bb''\<rparr>, \<lparr>score = 1 / 61, metadata = ''a''\<rparr>,
      \<lparr>score = 1 / 62, metadata = ''dddd''\<rparr>, \<lparr>score = 1 / 62, metadata = ''bb''\<rparr>,
      \<lparr>score = 1 / 63, metadata = ''a''\<rparr>, \<lparr>score = 1 / 63, metadata = ''ccc''\<rparr>]"
  using fused_results_separate [OF scenario_keys_disjoint, of hsh]
  by (simp add: sorted_fused_results_def dense_BDA_alone lexical_ABC_alone [OF assms]
      sorted_reverse_def)

text \<open>
  C2 (the code departs from it).  The claim: the contributions to a chunk accumulate
  across the two lists, so in the scenario of the specification (lexical \<open>[A, B, C]\<close>,
  dense \<open>[B, D, A]\<close>) chunk B scores \<open>1/61 + 1/62\<close>.  The code, with the ids the
  repository gives the dense hits and for every hash function: no key of the dense list
  is a key of the lexical list, the dictionary is the three dense candidates followed by
  the lexical list fused on its own, and the candidate of B's dense hit scores \<open>1/61\<close>
  alone, while B's contributions by content add up to \<open>1/61 + 1/62\<close>.
\<close>

theorem scenario_lists_not_merged:
  "pinecone_doc_id ` set dense_BDA \<inter> bm25_doc_id hsh ` set lexical_ABC = {}
   \<and> fused_results_of hsh dense_BDA lexical_ABC
       = [(''dense_1'', \<lparr>score = 1 / 61, metadata = ''bb''\<rparr>),
          (''dense_3'', \<lparr>score = 1 / 62, metadata = ''dddd''\<rparr>),
          (''dense_0'', \<lparr>score = 1 / 63, metadata = ''a''\<rparr>)]
         @ fused_results_of hsh [] lexical_ABC
   \<and> score_of (fused_results_of hsh dense_BDA lexical_ABC) ''dense_1'' = 1 / 61
   \<and> rrf_sum 0 (map full_content dense_BDA) ''bb'' + rrf_sum 0 (map full_content lexical_ABC) ''bb''
       = 1 / 61 + 1 / 62"
  using fused_results_separate [OF scenario_keys_disjoint, of hsh]
  by (simp add: scenario_keys_disjoint dense_BDA_alone score_of_def)
    (simp add: dense_BDA_def lexical_ABC_def)

subsection \<open>Reranking and selection\<close>

text \<open>
  C4.  When the relevance model returns one score per candidate, the reranked list is
  a permutation of the pool, ordered by relevance score, highest first, and candidates
  with equal scores keep the order they had in the pool, which is their fusion rank.
\<close>

theorem rerank_permutation:
  "length scores = length pool \<Longrightarrow>
     mset (map fst (reranked_results pool scores)) = mset pool
     \<and> sorted_wrt (\<lambda>a b. snd a \<ge> snd b) (reranked_results pool scores)
     \<and> (\<forall>v. filter (\<lambda>x. snd x = v) (reranked_results pool scores)
              = filter (\<lambda>x. snd x = v) (zip pool scores))"
proof (intro conjI allI)
  assume len: "length scores = length pool"
  have "mset (map fst (reranked_results pool scores)) = image_mset fst (mset (zip pool scores))"
    by (simp add: reranked_results_def mset_sorted_reverse)
  also have "\<dots> = mset (map fst (zip pool scores))"
    by simp
  also have "\<dots> = mset pool"
    using len by simp
  finally show "mset (map fst (reranked_results pool scores)) = mset pool" .
  show "sorted_wrt (\<lambda>a b. snd a \<ge> snd b) (reranked_results pool scores)"
    by (simp add: reranked_results_def sorted_sorted_reverse)
  show "filter (\<lambda>x. snd x = v) (reranked_results pool scores)
          = filter (\<lambda>x. snd x = v) (zip pool scores)" for v
    by (simp add: reranked_results_def stable_sorted_reverse)
qed

theorem rerank_permutation_witness:
  "length [1, 2, 1 :: real] = length [''a'', ''b'', ''c'']
   \<and> reranked_results [''a'', ''b'', ''c''] [1, 2, 1] = [(''b'', 2), (''a'', 1), (''c'', 1)]
   \<and> mset (map fst (reranked_results [''a'', ''b'', ''c''] [1, 2, 1])) = mset [''a'', ''b'', ''c'']"
  using rerank_permutation [of "[1, 2, 1]" "[''a'', ''b'', ''c'']"]
  by (simp add: reranked_results_def sorted_reverse_def)

text \<open>
  C9.  For a non-negative \<^verbatim>\<open>final_k\<close> the final context is the contents of the first
  \<^verbatim>\<open>final_k\<close> reranked entries, in their order; all of them when there are fewer.
\<close>

theorem final_context_truncates:
  "0 \<le> final_k \<Longrightarrow>
     final_context reranked final_k = map fst (take (nat final_k) reranked)
     \<and> length (final_context reranked final_k) = min (nat final_k) (length reranked)
     \<and> (length reranked \<le> nat final_k \<longrightarrow> final_context reranked final_k = map fst reranked)"
  by (simp add: final_context_def py_take_nonneg)

theorem final_context_truncates_witness:
  "(0 :: int) \<le> 3
   \<and> final_context [(''a'', 5), (''b'', 4), (''c'', 3), (''d'', 2), (''e'', 1)] 3 = [''a'', ''b'', ''c'']
   \<and> length [(''a'', 5 :: real), (''b'', 4)] \<le> nat 3
   \<and> final_context [(''a'', 5), (''b'', 4)] 3 = [''a'', ''b'']"
  using final_context_truncates [of 3 "[(''a'', 5), (''b'', 4), (''c'', 3), (''d'', 2), (''e'', 1)]"]
    final_context_truncates [of 3 "[(''a'', 5), (''b'', 4)]"]
  by simp

subsection \<open>The same passage twice\<close>

text \<open>
  C10.  With the passage \<^verbatim>\<open>solar power\<close> in the corpus and returned by the vector store
  under the id \<^verbatim>\<open>dense_0\<close>, the key of the dense hit differs from the key of the
  lexical hit, both candidates reach the reranker and the final selection, and the
  returned context holds the passage twice, whatever the hash function.
\<close>

theorem same_passage_twice:
  "pinecone_doc_id dense_solar \<noteq> bm25_doc_id hsh bm25_solar
   \<and> fst (retrieve_and_rerank (env_same_chunk hsh) initial_state ''energy?'' 10 3)
       = Inr [''solar power'', ''solar power'']"
  by (simp add: pipeline_defs env_same_chunk_def dense_solar_def bm25_solar_def initial_state_def
      tokens_wind tokens_solar_power strip_def isspace_def)

subsection \<open>The index and the corpus\<close>

lemma calls_initial: "calls initial_state = []"
  by (simp add: initial_state_def)

lemma index_matches_initial: "index_matches_corpus initial_state"
  by (simp add: index_matches_corpus_def initial_state_def)

lemma index_matches_build:
  "bm25_index s = None \<Longrightarrow> index_matches_corpus (snd (build_bm25_index_from_file e s))"
  by (auto simp: index_matches_corpus_def build_bm25_index_from_file_def record_call_def
      BM25Okapi_def Let_def split: sum.splits)

lemma index_matches_ensure:
  "index_matches_corpus s \<Longrightarrow> index_matches_corpus (snd (ensure_bm25_index e s))"
  by (simp add: ensure_bm25_index_def index_matches_build)

lemma ensure_gives_index:
  "ensure_bm25_index e s = (Inr u, s') \<Longrightarrow> bm25_index s' \<noteq> None"
  by (auto simp: ensure_bm25_index_def build_bm25_index_from_file_def Let_def
      split: sum.splits if_splits)

lemma index_matches_same_globals:
  "same_globals s t \<Longrightarrow> index_matches_corpus t \<Longrightarrow> index_matches_corpus s"
  by (simp add: same_globals_def index_matches_corpus_def cong: option.case_cong)

subsection \<open>Lexical search on a query without terms\<close>

lemma get_scores_empty_query: "get_scores idx [] = map (\<lambda>d. 0) (doc_tokens idx)"
  by (simp add: get_scores_def)

lemma results_of_zero_scores:
  "bm25_results_of (map (\<lambda>d. 0) docs) top_k = py_take top_k [0..<length docs]"
proof -
  have "map (\<lambda>i. - (map (\<lambda>d. 0::real) docs ! i)) [0..<length docs] = replicate (length docs) 0"
    by (rule nth_equalityI) auto
  then have "sorted (map (\<lambda>i. - (map (\<lambda>d. 0::real) docs ! i)) [0..<length docs])"
    by simp
  then show ?thesis
    by (simp add: bm25_results_of_def sorted_reverse_def sort_key_id_if_sorted)
qed

lemma bm25_hits_of_in_range:
  "\<forall>i \<in> set is. i < length corp \<Longrightarrow>
     bm25_hits_of corp sc is =
       Inr (map (\<lambda>i. \<lparr>hit_id = ''bm25_'' @ str_nat i, hit_score = sc ! i, full_content = corp ! i\<rparr>) is)"
  by (induction "is") auto

lemma set_py_take: "set (py_take k xs) \<subseteq> set xs"
  by (auto simp: py_take_def dest: in_set_takeD)

lemma tokens_punct: "simple_tokenizer ''?!'' = []"
  by (simp add: char_defs)

lemma tokens_energy: "simple_tokenizer ''energy?'' = [''energy'']"
  by (simp add: char_defs)

lemma state_solar_eq:
  "state_solar = \<lparr>bm25_index = Some \<lparr>doc_tokens = [[''solar'', ''power'']], avgdl = 2\<rparr>,
                  corpus = [''solar power''], calls = [(ReadFile, None)]\<rparr>"
  by (simp add: state_solar_def build_bm25_index_from_file_def env_same_chunk_def
      initial_state_def record_call_def BM25Okapi_def tokens_solar_power)

lemma state_indexed_eq:
  "state_indexed = \<lparr>bm25_index = Some \<lparr>doc_tokens = [[''solar'', ''power'']], avgdl = 2\<rparr>,
                    corpus = [''solar power''],
                    calls = [(ReadFile, None), (PineconeIndex, None)]\<rparr>"
  by (simp add: state_indexed_def state_solar_eq get_pinecone_index_def env_same_chunk_def
      record_call_def)

text \<open>
  C3 (as the code has it).  The claim fails: with the passage \<^verbatim>\<open>solar power\<close> indexed, the
  query \<^verbatim>\<open>?!\<close> has no terms and the lexical search returns that passage, with score 0.
\<close>

theorem empty_query_returns_hits:
  "simple_tokenizer ''?!'' = []
   \<and> keyword_search state_solar ''?!'' 10 = Inr [bm25_solar]
   \<and> keyword_search state_solar ''?!'' 10 \<noteq> Inr []"
  by (simp add: state_solar_eq tokens_punct keyword_search_def get_scores_def bm25_results_of_def
      sorted_reverse_def py_take_def bm25_solar_def digit_char_def)

text \<open>
  C3, amended.  For a query without terms, on a process whose index exists and agrees
  with its corpus, the lexical search raises nothing and returns the passages at the
  first \<^verbatim>\<open>top_k\<close> corpus positions, in corpus order, each with the score 0.
\<close>

theorem keyword_search_empty_query:
  assumes "simple_tokenizer q = []" and "bm25_index s \<noteq> None" and "index_matches_corpus s"
  shows "keyword_search s q top_k
           = Inr (map (zero_hit (corpus s)) (py_take top_k [0..<length (corpus s)]))"
proof -
  from assms(2) obtain idx where idx: "bm25_index s = Some idx"
    by auto
  with assms(3) have docs: "doc_tokens idx = map simple_tokenizer (corpus s)"
    by (simp add: index_matches_corpus_def)
  let ?is = "py_take top_k [0..<length (corpus s)]"
  let ?sc = "map (\<lambda>d. 0::real) (doc_tokens idx)"
  have inr: "\<forall>i \<in> set ?is. i < length (corpus s)"
    using set_py_take [of top_k "[0..<length (corpus s)]"] by auto
  have "keyword_search s q top_k = bm25_hits_of (corpus s) ?sc ?is"
    using idx assms(1) docs
    by (simp add: keyword_search_def get_scores_empty_query results_of_zero_scores
        del: map_map)
  also have "\<dots> = Inr (map (\<lambda>i. \<lparr>hit_id = ''bm25_'' @ str_nat i, hit_score = ?sc ! i,
                                   full_content = corpus s ! i\<rparr>) ?is)"
    using inr by (rule bm25_hits_of_in_range)
  also have "\<dots> = Inr (map (zero_hit (corpus s)) ?is)"
    using inr docs by (simp add: zero_hit_def)
  finally show ?thesis .
qed

theorem keyword_search_empty_query_witness:
  "simple_tokenizer ''?!'' = [] \<and> bm25_index state_solar \<noteq> None
   \<and> index_matches_corpus state_solar
   \<and> keyword_search state_solar ''?!'' 10 = Inr [zero_hit [''solar power''] 0]"
  using keyword_search_empty_query [of "''?!''" state_solar 10]
  by (simp add: state_solar_eq tokens_punct index_matches_corpus_def tokens_solar_power py_take_def)

subsection \<open>Query rewriting\<close>

text \<open>
  C5 (as the code has it).  The claim fails for an empty response: a call that returns
  an empty text raises nothing, and the rewritten query is the empty string, not the
  question.
\<close>

theorem empty_rewrite_is_used:
  "generate_content env_rewrite_empty 0 (REWRITE_PROMPT_TEMPLATE ''energy?'') = Inr []
   \<and> fst (rewrite_query env_rewrite_empty initial_state ''energy?'') = []
   \<and> fst (rewrite_query env_rewrite_empty initial_state ''energy?'') \<noteq> ''energy?''"
  by (simp add: rewrite_query_def env_rewrite_empty_def env_same_chunk_def initial_state_def
      strip_def)

text \<open>
  C5, amended.  When the rewriting call raises, \<^verbatim>\<open>rewrite_query\<close> returns the question
  unchanged and raises nothing, and \<^verbatim>\<open>retrieve_and_rerank\<close> goes on with the two
  searches, the fusion and the reranking on the original question.
\<close>

theorem rewrite_failure_falls_back:
  assumes "generate_content e (length (calls s2)) (REWRITE_PROMPT_TEMPLATE q) = Inl err"
  shows "rewrite_query e s2 q = (q, record_call Generate (Some err) s2)
     \<and> (ensure_bm25_index e s = (Inr (), s1) \<and> get_pinecone_index e s1 = (Inr (), s2) \<longrightarrow>
          retrieve_and_rerank e s q top_k final_k
            = search_fuse_rerank e (record_call Generate (Some err) s2) q q top_k final_k)"
  using assms by (simp add: rewrite_query_def retrieve_and_rerank_def retrieve_with_index_def)

theorem rewrite_failure_falls_back_witness:
  "generate_content env_rewrite_raises (length (calls state_indexed)) (REWRITE_PROMPT_TEMPLATE ''energy?'')
     = Inl (ExternalError ''503'')
   \<and> ensure_bm25_index env_rewrite_raises initial_state = (Inr (), state_solar)
   \<and> get_pinecone_index env_rewrite_raises state_solar = (Inr (), state_indexed)
   \<and> fst (rewrite_query env_rewrite_raises state_indexed ''energy?'') = ''energy?''
   \<and> fst (retrieve_and_rerank env_rewrite_raises initial_state ''energy?'' 10 3)
       = Inr [''solar power'', ''solar power'']"
  using rewrite_failure_falls_back [of env_rewrite_raises state_indexed "''energy?''"
      "ExternalError ''503''" initial_state state_solar 10 3]
  by (simp add: pipeline_defs env_rewrite_raises_def env_same_chunk_def dense_solar_def
      initial_state_def state_indexed_eq state_solar_eq hash_len_def tokens_energy
      tokens_solar_power)

subsection \<open>An empty corpus\<close>

text \<open>
  C7 (as the code has it).  The claim fails: the code has no check for an empty corpus.
  With a corpus file that holds no item the call ends in the division by zero of the
  index constructor's average document length, and the index stays unbuilt.
\<close>

theorem empty_corpus_division_error:
  "retrieve_and_rerank env_empty_corpus initial_state ''energy?'' 10 3
     = (Inl ZeroDivisionError, \<lparr>bm25_index = None, corpus = [], calls = [(ReadFile, None)]\<rparr>)"
  by (simp add: retrieve_and_rerank_def ensure_bm25_index_def build_bm25_index_from_file_def
      BM25Okapi_def record_call_def env_empty_corpus_def env_same_chunk_def initial_state_def)

text \<open>
  C7, amended.  On a process without an index, when the corpus file holds no item,
  \<^verbatim>\<open>retrieve_and_rerank\<close> returns no context: it ends with the \<open>ZeroDivisionError\<close> of the
  index constructor, after reading the file and before any search, and leaves the
  index unbuilt, so that the next call does the same.
\<close>

theorem empty_corpus_fails_in_constructor:
  assumes "bm25_index s = None" and "read_golden_dataset e (length (calls s)) = Inr []"
  shows "retrieve_and_rerank e s q top_k final_k
           = (Inl ZeroDivisionError, (record_call ReadFile None s)\<lparr>corpus := []\<rparr>)
         \<and> bm25_index (snd (retrieve_and_rerank e s q top_k final_k)) = None"
  using assms
  by (simp add: retrieve_and_rerank_def ensure_bm25_index_def build_bm25_index_from_file_def
      BM25Okapi_def record_call_def)

theorem empty_corpus_fails_in_constructor_witness:
  "bm25_index initial_state = None
   \<and> read_golden_dataset env_empty_corpus (length (calls initial_state)) = Inr []
   \<and> fst (retrieve_and_rerank env_empty_corpus initial_state ''energy?'' 10 3) = Inl ZeroDivisionError"
  using empty_corpus_fails_in_constructor [of initial_state env_empty_corpus "''energy?''" 10 3]
  by (simp add: env_empty_corpus_def env_same_chunk_def initial_state_def)

subsection \<open>Two concrete runs\<close>

lemma run_same_chunk:
  "retrieve_and_rerank (env_same_chunk hsh) initial_state ''energy?'' 10 3
     = (Inr [''solar power'', ''solar power''],
        \<lparr>bm25_index = Some \<lparr>doc_tokens = [[''solar'', ''power'']], avgdl = 2\<rparr>,
         corpus = [''solar power''],
         calls = [(ReadFile, None), (PineconeIndex, None), (Generate, None),
                  (Encode, None), (Query, None), (Predict, None)]\<rparr>)"
  by (simp add: pipeline_defs env_same_chunk_def dense_solar_def initial_state_def
      tokens_wind tokens_solar_power strip_def isspace_def)

lemma run_encode_fails:
  "retrieve_and_rerank env_encode_fails_once initial_state ''energy?'' 10 3
     = (Inl (ExternalError ''timeout''),
        \<lparr>bm25_index = Some \<lparr>doc_tokens = [[''solar'', ''power'']], avgdl = 2\<rparr>,
         corpus = [''solar power''],
         calls = [(ReadFile, None), (PineconeIndex, None), (Generate, None),
                  (Encode, Some (ExternalError ''timeout''))]\<rparr>)"
  by (simp add: pipeline_defs env_encode_fails_once_def env_same_chunk_def dense_solar_def
      initial_state_def tokens_wind tokens_solar_power strip_def isspace_def)

subsection \<open>Failures of the embedding and of the vector index\<close>

lemma semantic_search_calls:
  assumes "semantic_search e s rq k = (r, s')"
  shows "(\<exists>err. r = Inl err \<and> calls s' = calls s @ [(Encode, Some err)])
     \<or> (\<exists>err. r = Inl err \<and> calls s' = calls s @ [(Encode, None), (Query, Some err)])
     \<or> (\<exists>hs. r = Inr hs \<and> calls s' = calls s @ [(Encode, None), (Query, None)])"
proof (cases "encode e (length (calls s)) rq")
  case (Inl err)
  with assms show ?thesis
    by (auto simp: semantic_search_def record_call_def)
next
  case enc: (Inr v)
  show ?thesis
  proof (cases "pinecone_query e (Suc (length (calls s))) v k")
    case (Inl err)
    with enc assms show ?thesis
      by (auto simp: semantic_search_def record_call_def)
  next
    case (Inr hs)
    with enc assms have "r = Inr hs" "calls s' = calls s @ [(Encode, None), (Query, None)]"
      by (auto simp: semantic_search_def record_call_def)
    then show ?thesis
      by simp
  qed
qed

lemma rerank_and_select_calls:
  "rerank_and_select e s q pool fk = (r, s') \<Longrightarrow>
     \<exists>new. calls s' = calls s @ new \<and> (\<forall>c \<in> set new. fst c = Predict)"
  by (auto simp: rerank_and_select_def record_call_def Let_def split: sum.splits if_splits)

lemma search_fuse_rerank_calls:
  assumes "search_fuse_rerank e s q rq k fk = (r, s')"
  shows "\<exists>new. calls s' = calls s @ new
           \<and> (\<forall>err. (Encode, Some err) \<in> set new \<or> (Query, Some err) \<in> set new \<longrightarrow> r = Inl err)
           \<and> length (filter (\<lambda>c. fst c = Encode) new) \<le> 1
           \<and> length (filter (\<lambda>c. fst c = Query) new) \<le> 1"
proof (cases "keyword_search s rq k")
  case (Inl err)
  with assms have "s' = s" "r = Inl err"
    by (auto simp: search_fuse_rerank_def)
  then show ?thesis by simp
next
  case (Inr bm25_hits)
  obtain r1 s1 where sem: "semantic_search e s rq k = (r1, s1)"
    by (cases "semantic_search e s rq k")
  show ?thesis
  proof (cases r1)
    case (Inl err)
    with assms Inr sem have res: "r = Inl err" "s' = s1"
      by (auto simp: search_fuse_rerank_def)
    from semantic_search_calls [OF sem] Inl res show ?thesis
      by auto
  next
    case (Inr pinecone_hits)
    with semantic_search_calls [OF sem] have c1: "calls s1 = calls s @ [(Encode, None), (Query, None)]"
      by auto
    from assms \<open>keyword_search s rq k = Inr bm25_hits\<close> sem Inr
    have "rerank_and_select e s1 q
            (top_fused_hits_of k (sorted_fused_results (hash e) pinecone_hits bm25_hits)) fk = (r, s')"
      by (simp add: search_fuse_rerank_def)
    from rerank_and_select_calls [OF this] obtain new
      where "calls s' = calls s1 @ new" "\<forall>c \<in> set new. fst c = Predict"
      by blast
    with c1 have "calls s' = calls s @ ([(Encode, None), (Query, None)] @ new)"
      and "\<forall>c \<in> set new. fst c = Predict"
      by auto
    then show ?thesis
      by (intro exI [of _ "[(Encode, None), (Query, None)] @ new"]) (auto simp: filter_empty_conv)
  qed
qed

lemma before_search_calls:
  assumes "retrieve_and_rerank e s q k fk = (r, s')"
  shows "(\<exists>pre. calls s' = calls s @ pre \<and> (\<forall>c \<in> set pre. fst c \<noteq> Encode \<and> fst c \<noteq> Query))
       \<or> (\<exists>s3 rq pre. calls s3 = calls s @ pre \<and> (\<forall>c \<in> set pre. fst c \<noteq> Encode \<and> fst c \<noteq> Query)
              \<and> search_fuse_rerank e s3 q rq k fk = (r, s'))"
proof -
  obtain r1 s1 where ens: "ensure_bm25_index e s = (r1, s1)"
    by (cases "ensure_bm25_index e s")
  have c1: "\<exists>pre. calls s1 = calls s @ pre \<and> (\<forall>c \<in> set pre. fst c = ReadFile)"
    using ens
    by (auto simp: ensure_bm25_index_def build_bm25_index_from_file_def record_call_def Let_def
        split: sum.splits if_splits)
  show ?thesis
  proof (cases r1)
    case (Inl err)
    with assms ens have "s' = s1"
      by (simp add: retrieve_and_rerank_def)
    with c1 show ?thesis by auto
  next
    case (Inr u)
    with assms ens have w: "retrieve_with_index e s1 q k fk = (r, s')"
      by (simp add: retrieve_and_rerank_def)
    obtain r2 s2 where pc: "get_pinecone_index e s1 = (r2, s2)"
      by (cases "get_pinecone_index e s1")
    then have c2: "\<exists>x. calls s2 = calls s1 @ [(PineconeIndex, x)]"
      by (auto simp: get_pinecone_index_def record_call_def split: sum.splits)
    show ?thesis
    proof (cases r2)
      case (Inl err)
      with w pc have "s' = s2"
        by (simp add: retrieve_with_index_def)
      with c1 c2 show ?thesis by auto
    next
      case (Inr u2)
      obtain rq s3 where rw: "rewrite_query e s2 q = (rq, s3)"
        by (cases "rewrite_query e s2 q")
      then have c3: "\<exists>x. calls s3 = calls s2 @ [(Generate, x)]"
        by (auto simp: rewrite_query_def record_call_def Let_def split: sum.splits)
      from w pc Inr rw have "search_fuse_rerank e s3 q rq k fk = (r, s')"
        by (simp add: retrieve_with_index_def)
      moreover from c1 c2 c3
      have "\<exists>pre. calls s3 = calls s @ pre \<and> (\<forall>c \<in> set pre. fst c \<noteq> Encode \<and> fst c \<noteq> Query)"
        by auto
      ultimately show ?thesis by blast
    qed
  qed
qed

text \<open>
  C6 (as the code has it).  The claim fails: nothing is retried.  The embedding call
  raises on its first use and would succeed on a second one; the run ends with the
  embedding's error after exactly one embedding call.
\<close>

theorem encode_failure_not_retried:
  "retrieve_and_rerank env_encode_fails_once initial_state ''energy?'' 10 3
     = (Inl (ExternalError ''timeout''),
        \<lparr>bm25_index = Some \<lparr>doc_tokens = [[''solar'', ''power'']], avgdl = 2\<rparr>,
         corpus = [''solar power''],
         calls = [(ReadFile, None), (PineconeIndex, None), (Generate, None),
                  (Encode, Some (ExternalError ''timeout''))]\<rparr>)
   \<and> encode env_encode_fails_once 4 ''wind'' = Inr [1]"
  by (simp add: run_encode_fails) (simp add: env_encode_fails_once_def)

text \<open>
  C6, amended.  When the embedding or the vector-index call of a run raises, the run
  ends with that error as its result, never with a context list; and a run calls the
  embedding at most once and the vector index at most once, so nothing is retried.
\<close>

theorem retrieval_errors_propagate:
  "((Encode, Some err) \<in> set (new_calls s (snd (retrieve_and_rerank e s q top_k final_k)))
      \<or> (Query, Some err) \<in> set (new_calls s (snd (retrieve_and_rerank e s q top_k final_k)))
     \<longrightarrow> fst (retrieve_and_rerank e s q top_k final_k) = Inl err)
   \<and> length (filter (\<lambda>c. fst c = Encode)
               (new_calls s (snd (retrieve_and_rerank e s q top_k final_k)))) \<le> 1
   \<and> length (filter (\<lambda>c. fst c = Query)
               (new_calls s (snd (retrieve_and_rerank e s q top_k final_k)))) \<le> 1"
proof -
  obtain r s' where run: "retrieve_and_rerank e s q top_k final_k = (r, s')"
    by (cases "retrieve_and_rerank e s q top_k final_k")
  have "\<exists>new. calls s' = calls s @ new
           \<and> (\<forall>err. (Encode, Some err) \<in> set new \<or> (Query, Some err) \<in> set new \<longrightarrow> r = Inl err)
           \<and> length (filter (\<lambda>c. fst c = Encode) new) \<le> 1
           \<and> length (filter (\<lambda>c. fst c = Query) new) \<le> 1"
    using before_search_calls [OF run]
  proof (elim disjE exE conjE)
    fix pre
    assume "calls s' = calls s @ pre" "\<forall>c \<in> set pre. fst c \<noteq> Encode \<and> fst c \<noteq> Query"
    then show ?thesis
      by (intro exI [of _ pre]) (auto simp: filter_empty_conv)
  next
    fix s3 rq pre
    assume pre: "calls s3 = calls s @ pre" "\<forall>c \<in> set pre. fst c \<noteq> Encode \<and> fst c \<noteq> Query"
      and "search_fuse_rerank e s3 q rq top_k final_k = (r, s')"
    from search_fuse_rerank_calls [OF this(3)] obtain new where new:
      "calls s' = calls s3 @ new"
      "\<forall>err. (Encode, Some err) \<in> set new \<or> (Query, Some err) \<in> set new \<longrightarrow> r = Inl err"
      "length (filter (\<lambda>c. fst c = Encode) new) \<le> 1"
      "length (filter (\<lambda>c. fst c = Query) new) \<le> 1"
      by blast
    from pre(2) have none: "filter (\<lambda>c. fst c = Encode) pre = []" "filter (\<lambda>c. fst c = Query) pre = []"
      by (auto simp: filter_empty_conv)
    from pre(2) have notin: "\<And>x. (Encode, x) \<notin> set pre" "\<And>x. (Query, x) \<notin> set pre"
      by fastforce+
    show ?thesis
      using pre(1) new none notin by (intro exI [of _ "pre @ new"]) auto
  qed
  then obtain new where new: "calls s' = calls s @ new"
      "\<forall>err. (Encode, Some err) \<in> set new \<or> (Query, Some err) \<in> set new \<longrightarrow> r = Inl err"
      "length (filter (\<lambda>c. fst c = Encode) new) \<le> 1"
      "length (filter (\<lambda>c. fst c = Query) new) \<le> 1"
    by blast
  from new(1) have "new_calls s s' = new"
    by (simp add: new_calls_def)
  with run new show ?thesis
    by simp
qed

theorem retrieval_errors_propagate_witness:
  "(Encode, Some (ExternalError ''timeout''))
     \<in> set (new_calls initial_state
              (snd (retrieve_and_rerank env_encode_fails_once initial_state ''energy?'' 10 3)))
   \<and> fst (retrieve_and_rerank env_encode_fails_once initial_state ''energy?'' 10 3)
       = Inl (ExternalError ''timeout'')"
  using retrieval_errors_propagate [where err = "ExternalError ''timeout''" and s = initial_state
      and e = env_encode_fails_once and q = "''energy?''" and top_k = 10 and final_k = 3]
  by (simp add: run_encode_fails new_calls_def calls_initial)

subsection \<open>Two runs\<close>

lemma same_globals_refl: "same_globals s s"
  by (simp add: same_globals_def)

lemma same_globals_trans: "same_globals s t \<Longrightarrow> same_globals t u \<Longrightarrow> same_globals s u"
  by (simp add: same_globals_def)

lemma same_globals_sym: "same_globals s t \<Longrightarrow> same_globals t s"
  by (simp add: same_globals_def)

lemma keyword_search_globals: "same_globals s t \<Longrightarrow> keyword_search s rq k = keyword_search t rq k"
  by (simp add: same_globals_def keyword_search_def cong: option.case_cong)

lemma get_pinecone_index_globals:
  "same_globals (snd (get_pinecone_index e s)) s"
  by (simp add: get_pinecone_index_def same_globals_def record_call_def split: sum.splits)

lemma get_pinecone_index_result:
  "identical_responses e \<Longrightarrow> fst (get_pinecone_index e s) = fst (get_pinecone_index e t)"
proof -
  assume "identical_responses e"
  then have "pc_Index e (length (calls s)) = pc_Index e (length (calls t))"
    unfolding identical_responses_def by blast
  then show ?thesis
    by (simp add: get_pinecone_index_def split: sum.splits)
qed

lemma rewrite_query_globals: "same_globals (snd (rewrite_query e s q)) s"
  by (simp add: rewrite_query_def same_globals_def record_call_def Let_def split: sum.splits)

lemma rewrite_query_result:
  "identical_responses e \<Longrightarrow> fst (rewrite_query e s q) = fst (rewrite_query e t q)"
proof -
  assume "identical_responses e"
  then have "generate_content e (length (calls s)) (REWRITE_PROMPT_TEMPLATE q)
               = generate_content e (length (calls t)) (REWRITE_PROMPT_TEMPLATE q)"
    unfolding identical_responses_def by blast
  then show ?thesis
    by (simp add: rewrite_query_def Let_def split: sum.splits)
qed

lemma semantic_search_globals: "same_globals (snd (semantic_search e s rq k)) s"
  by (simp add: semantic_search_def same_globals_def record_call_def Let_def split: sum.splits)

lemma semantic_search_result:
  "identical_responses e \<Longrightarrow> fst (semantic_search e s rq k) = fst (semantic_search e t rq k)"
proof -
  assume id: "identical_responses e"
  then have enc: "encode e (length (calls s)) rq = encode e (length (calls t)) rq"
    unfolding identical_responses_def by blast
  from id have "\<And>v. pinecone_query e (Suc (length (calls s))) v k = pinecone_query e (Suc (length (calls t))) v k"
    unfolding identical_responses_def by blast
  with enc show ?thesis
    by (simp add: semantic_search_def record_call_def Let_def split: sum.splits)
qed

lemma rerank_and_select_globals: "same_globals (snd (rerank_and_select e s q pool fk)) s"
  by (simp add: rerank_and_select_def same_globals_def record_call_def Let_def split: sum.splits)

lemma rerank_and_select_result:
  "identical_responses e \<Longrightarrow> fst (rerank_and_select e s q pool fk) = fst (rerank_and_select e t q pool fk)"
proof -
  assume "identical_responses e"
  then have "\<And>pairs. predict e (length (calls s)) pairs = predict e (length (calls t)) pairs"
    unfolding identical_responses_def by blast
  then show ?thesis
    by (simp add: rerank_and_select_def Let_def split: sum.splits)
qed

lemma search_fuse_rerank_globals: "same_globals (snd (search_fuse_rerank e s q rq k fk)) s"
proof (cases "keyword_search s rq k")
  case (Inl err)
  then show ?thesis
    by (simp add: search_fuse_rerank_def same_globals_refl)
next
  case (Inr bm25_hits)
  obtain r1 s1 where sem: "semantic_search e s rq k = (r1, s1)"
    by (cases "semantic_search e s rq k")
  with semantic_search_globals [of e s rq k] have g1: "same_globals s1 s"
    by simp
  show ?thesis
  proof (cases r1)
    case (Inl err)
    with Inr sem g1 show ?thesis
      by (simp add: search_fuse_rerank_def)
  next
    case hits: (Inr pinecone_hits)
    with Inr sem have "search_fuse_rerank e s q rq k fk
        = rerank_and_select e s1 q
            (top_fused_hits_of k (sorted_fused_results (hash e) pinecone_hits bm25_hits)) fk"
      by (simp add: search_fuse_rerank_def)
    with rerank_and_select_globals [of e s1 q _ fk] g1 show ?thesis
      by (auto intro: same_globals_trans)
  qed
qed

lemma search_fuse_rerank_result:
  assumes "identical_responses e" and "same_globals s t"
  shows "fst (search_fuse_rerank e s q rq k fk) = fst (search_fuse_rerank e t q rq k fk)"
proof -
  have kw: "keyword_search s rq k = keyword_search t rq k"
    using assms(2) by (rule keyword_search_globals)
  show ?thesis
  proof (cases "keyword_search t rq k")
    case (Inl err)
    with kw show ?thesis
      by (simp add: search_fuse_rerank_def)
  next
    case (Inr bm25_hits)
    obtain r1 s1 where sem_s: "semantic_search e s rq k = (r1, s1)"
      by (cases "semantic_search e s rq k")
    obtain r2 t1 where sem_t: "semantic_search e t rq k = (r2, t1)"
      by (cases "semantic_search e t rq k")
    from semantic_search_result [OF assms(1), of s rq k t] sem_s sem_t have r: "r2 = r1"
      by simp
    show ?thesis
    proof (cases r1)
      case (Inl err)
      with kw Inr sem_s sem_t r show ?thesis
        by (simp add: search_fuse_rerank_def)
    next
      case hits: (Inr pinecone_hits)
      with kw Inr sem_s sem_t r show ?thesis
        using rerank_and_select_result [OF assms(1)]
        by (simp add: search_fuse_rerank_def)
    qed
  qed
qed

lemma retrieve_with_index_globals: "same_globals (snd (retrieve_with_index e s q k fk)) s"
proof -
  obtain r1 s1 where pc: "get_pinecone_index e s = (r1, s1)"
    by (cases "get_pinecone_index e s")
  with get_pinecone_index_globals [of e s] have g1: "same_globals s1 s"
    by simp
  obtain rq s2 where rw: "rewrite_query e s1 q = (rq, s2)"
    by (cases "rewrite_query e s1 q")
  with rewrite_query_globals [of e s1 q] have g2: "same_globals s2 s1"
    by simp
  show ?thesis
  proof (cases r1)
    case (Inl err)
    with pc g1 show ?thesis
      by (simp add: retrieve_with_index_def)
  next
    case (Inr u)
    with pc rw have "retrieve_with_index e s q k fk = search_fuse_rerank e s2 q rq k fk"
      by (simp add: retrieve_with_index_def)
    with search_fuse_rerank_globals [of e s2 q rq k fk] g2 g1 show ?thesis
      by (auto intro: same_globals_trans)
  qed
qed

lemma retrieve_with_index_result:
  assumes "identical_responses e" and "same_globals s t"
  shows "fst (retrieve_with_index e s q k fk) = fst (retrieve_with_index e t q k fk)"
proof -
  obtain r1 s1 where pc_s: "get_pinecone_index e s = (r1, s1)"
    by (cases "get_pinecone_index e s")
  obtain r2 t1 where pc_t: "get_pinecone_index e t = (r2, t1)"
    by (cases "get_pinecone_index e t")
  from get_pinecone_index_result [OF assms(1), of s t] pc_s pc_t have r: "r2 = r1"
    by simp
  from get_pinecone_index_globals [of e s] get_pinecone_index_globals [of e t] pc_s pc_t assms(2)
  have g1: "same_globals s1 t1"
    by (auto intro: same_globals_trans same_globals_sym)
  obtain rq s2 where rw_s: "rewrite_query e s1 q = (rq, s2)"
    by (cases "rewrite_query e s1 q")
  obtain rq' t2 where rw_t: "rewrite_query e t1 q = (rq', t2)"
    by (cases "rewrite_query e t1 q")
  from rewrite_query_result [OF assms(1), of s1 q t1] rw_s rw_t have rq: "rq' = rq"
    by simp
  from rewrite_query_globals [of e s1 q] rewrite_query_globals [of e t1 q] rw_s rw_t g1
  have g2: "same_globals s2 t2"
    by (auto intro: same_globals_trans same_globals_sym)
  show ?thesis
  proof (cases r1)
    case (Inl err)
    with pc_s pc_t r show ?thesis
      by (simp add: retrieve_with_index_def)
  next
    case (Inr u)
    with pc_s pc_t r rw_s rw_t rq show ?thesis
      using search_fuse_rerank_result [OF assms(1) g2]
      by (simp add: retrieve_with_index_def)
  qed
qed

lemma ensure_globals_result:
  assumes "identical_responses e" and "same_globals s t"
  shows "fst (ensure_bm25_index e s) = fst (ensure_bm25_index e t)
         \<and> same_globals (snd (ensure_bm25_index e s)) (snd (ensure_bm25_index e t))"
proof -
  from assms(1) have "read_golden_dataset e (length (calls s)) = read_golden_dataset e (length (calls t))"
    unfolding identical_responses_def by blast
  with assms(2) show ?thesis
    by (auto simp: ensure_bm25_index_def build_bm25_index_from_file_def same_globals_def
        record_call_def Let_def split: sum.splits)
qed

lemma ensure_again:
  assumes "identical_responses e"
  shows "fst (ensure_bm25_index e (snd (ensure_bm25_index e s))) = fst (ensure_bm25_index e s)
         \<and> same_globals (snd (ensure_bm25_index e (snd (ensure_bm25_index e s)))) (snd (ensure_bm25_index e s))"
proof (cases "bm25_index s")
  case (Some idx)
  then show ?thesis
    by (simp add: ensure_bm25_index_def same_globals_def)
next
  case None
  have rd: "\<And>n. read_golden_dataset e n = read_golden_dataset e (length (calls s))"
    using assms unfolding identical_responses_def by blast
  show ?thesis
  proof (cases "read_golden_dataset e (length (calls s))")
    case (Inl err)
    with None rd show ?thesis
      by (simp add: ensure_bm25_index_def build_bm25_index_from_file_def same_globals_def
          record_call_def)
  next
    case (Inr data)
    with None rd show ?thesis
      by (cases "BM25Okapi (map simple_tokenizer data)")
        (simp_all add: ensure_bm25_index_def build_bm25_index_from_file_def same_globals_def
          record_call_def)
  qed
qed

text \<open>
  C8.  With identical responses from the corpus file and from every service, a second
  run of \<^verbatim>\<open>retrieve_and_rerank\<close> on the same question, in the process as the first run
  left it, returns what the first run returned: the same error or the same ordered
  context.
\<close>

theorem second_run_same_output:
  assumes "identical_responses e"
  shows "fst (retrieve_and_rerank e (snd (retrieve_and_rerank e s q top_k final_k)) q top_k final_k)
           = fst (retrieve_and_rerank e s q top_k final_k)"
proof -
  obtain r1 s1 where ens: "ensure_bm25_index e s = (r1, s1)"
    by (cases "ensure_bm25_index e s")
  let ?s' = "snd (retrieve_and_rerank e s q top_k final_k)"
  obtain r2 s2 where ens': "ensure_bm25_index e ?s' = (r2, s2)"
    by (cases "ensure_bm25_index e ?s'")
  have g: "same_globals ?s' s1"
  proof (cases r1)
    case (Inl err)
    with ens show ?thesis
      by (simp add: retrieve_and_rerank_def same_globals_refl)
  next
    case (Inr u)
    with ens retrieve_with_index_globals [of e s1 q top_k final_k] show ?thesis
      by (simp add: retrieve_and_rerank_def)
  qed
  from ensure_globals_result [OF assms g] ensure_again [OF assms, of s] ens ens'
  have r: "r2 = r1" and g2: "same_globals s2 s1"
    by (auto intro: same_globals_trans)
  show ?thesis
  proof (cases r1)
    case (Inl err)
    with ens ens' r show ?thesis
      by (simp add: retrieve_and_rerank_def)
  next
    case (Inr u)
    with ens ens' r retrieve_with_index_result [OF assms g2, of q top_k final_k] show ?thesis
      by (simp add: retrieve_and_rerank_def)
  qed
qed


theorem second_run_same_output_witness:
  "identical_responses (env_same_chunk hash_len)
   \<and> fst (retrieve_and_rerank (env_same_chunk hash_len)
            (snd (retrieve_and_rerank (env_same_chunk hash_len) initial_state ''energy?'' 10 3))
            ''energy?'' 10 3)
       = Inr [''solar power'', ''solar power'']"
proof -
  have same: "identical_responses (env_same_chunk hash_len)"
    by (simp add: identical_responses_def env_same_chunk_def)
  from second_run_same_output [OF same, of initial_state "''energy?''" 10 3] same
  show ?thesis
    by (simp add: run_same_chunk)
qed

lemma index_matches_retrieve:
  assumes "index_matches_corpus s"
  shows "index_matches_corpus (snd (retrieve_and_rerank e s q top_k final_k))"
proof -
  obtain r1 s1 where ens: "ensure_bm25_index e s = (r1, s1)"
    by (cases "ensure_bm25_index e s")
  with index_matches_ensure [OF assms, of e] have m1: "index_matches_corpus s1"
    by simp
  show ?thesis
  proof (cases r1)
    case (Inl err)
    with ens m1 show ?thesis
      by (simp add: retrieve_and_rerank_def)
  next
    case (Inr u)
    with ens have "retrieve_and_rerank e s q top_k final_k = retrieve_with_index e s1 q top_k final_k"
      by (simp add: retrieve_and_rerank_def)
    with retrieve_with_index_globals [of e s1 q top_k final_k] m1 show ?thesis
      by (auto intro: index_matches_same_globals)
  qed
qed

end
